theory Spec2Isabelle
  imports Complex_Main
begin

section \<open>ArcaneWeaver entity components: stats and inventory\<close>

text \<open>
  A shallow embedding of \<^verbatim>\<open>arcaneweaver/core/entity_system/components.py\<close>.
  The classes are pydantic models; a class becomes a record that extends the record of
  its base class \<^verbatim>\<open>ComponentModel\<close>. Python's \<^verbatim>\<open>float\<close> fields are
  modelled by the reals (finite values, exact addition), Python's \<^verbatim>\<open>int\<close> by
  \<open>int\<close>, \<^verbatim>\<open>Optional[T]\<close> by \<open>T option\<close>. Methods that mutate
  \<^verbatim>\<open>self\<close> return the new object next to their result. Attributes beyond the
  declared fields (\<^verbatim>\<open>extra="allow"\<close>) are not modelled.
\<close>

datatype ComponentType = STAT | INVENTORY | CUSTOM

text \<open>
  Every exception of the module is a \<^verbatim>\<open>ValueError\<close>; the constructors tell the
  raise sites apart. \<open>ValidationError\<close> is pydantic's own error for a violated
  \<^verbatim>\<open>Field\<close> constraint, with the name of the field.
\<close>

datatype error =
    StatAlreadyExists string
  | MaxStatsReached int
  | QuantityWithoutItemId
  | ValidationError string

record ComponentModel =
  component_type :: ComponentType

subsection \<open>StatComponent\<close>

record StatComponent = ComponentModel +
  name :: string
  base_value :: real
  current_value :: real
  min_value :: "real option"
  max_value :: "real option"
  description :: string

text \<open>
  \<^verbatim>\<open>validation_info.data\<close>, restricted to the two keys the validators read. A key
  is present only when pydantic has already validated that field.
\<close>

type_synonym stat_validation_data = "string \<rightharpoonup> real option"

definition data_get :: "stat_validation_data \<Rightarrow> string \<Rightarrow> real option" where
  "data_get values k = (case values k of None \<Rightarrow> None | Some v \<Rightarrow> v)"

definition below_bound :: "real \<Rightarrow> real option \<Rightarrow> bool" where
  "below_bound v min_val = (case min_val of None \<Rightarrow> False | Some lo \<Rightarrow> v < lo)"

definition above_bound :: "real \<Rightarrow> real option \<Rightarrow> bool" where
  "above_bound v max_val = (case max_val of None \<Rightarrow> False | Some hi \<Rightarrow> v > hi)"

definition validate_current_value :: "real \<Rightarrow> stat_validation_data \<Rightarrow> real" where
  "validate_current_value v values =
     (let min_val = data_get values ''min_value'';
          max_val = data_get values ''max_value''
      in if below_bound v min_val then the min_val
         else if above_bound v max_val then the max_val
         else v)"

definition validate_base_value :: "real \<Rightarrow> stat_validation_data \<Rightarrow> real" where
  "validate_base_value v values =
     (let min_val = data_get values ''min_value'';
          max_val = data_get values ''max_value''
      in if below_bound v min_val then the min_val
         else if above_bound v max_val then the max_val
         else v)"

text \<open>
  Keyword arguments of the constructor. \<open>name\<close> is required (a call without it raises
  and builds nothing), every other field has a default.
\<close>

record stat_kwargs =
  kw_name :: string
  kw_base_value :: "real option"
  kw_current_value :: "real option"
  kw_min_value :: "real option"
  kw_max_value :: "real option"
  kw_description :: "string option"

text \<open>
  \<^verbatim>\<open>StatComponent.__init__\<close>: \<^verbatim>\<open>current_value\<close> defaults to
  \<^verbatim>\<open>base_value\<close>, then pydantic validates the fields in the order of their
  declaration: \<^verbatim>\<open>name, base_value, current_value, min_value, max_value, description\<close>.
  A field validator runs on a supplied value only, and its \<^verbatim>\<open>validation_info.data\<close>
  holds the fields validated before it: when \<^verbatim>\<open>base_value\<close> and
  \<^verbatim>\<open>current_value\<close> are validated, the keys \<^verbatim>\<open>min_value\<close> and
  \<^verbatim>\<open>max_value\<close> are not there yet.
\<close>

definition StatComponent_init :: "stat_kwargs \<Rightarrow> StatComponent" where
  "StatComponent_init kw =
     (let cur_arg = (case kw_current_value kw of
                       None \<Rightarrow> kw_base_value kw
                     | Some c \<Rightarrow> Some c);
          base = (case kw_base_value kw of
                    None \<Rightarrow> 0
                  | Some b \<Rightarrow> validate_base_value b Map.empty);
          cur = (case cur_arg of
                   None \<Rightarrow> 0
                 | Some c \<Rightarrow> validate_current_value c Map.empty)
      in \<lparr> component_type = STAT,
           name = kw_name kw,
           base_value = base,
           current_value = cur,
           min_value = kw_min_value kw,
           max_value = kw_max_value kw,
           description = (case kw_description kw of None \<Rightarrow> [] | Some d \<Rightarrow> d) \<rparr>)"

text \<open>
  Assignment to a field (\<^verbatim>\<open>validate_assignment=True\<close>): the field's validator
  runs with \<^verbatim>\<open>validation_info.data\<close> holding all other fields of the object.
\<close>

definition assignment_data :: "StatComponent \<Rightarrow> stat_validation_data" where
  "assignment_data s = [''min_value'' \<mapsto> min_value s, ''max_value'' \<mapsto> max_value s]"

definition assign_current_value :: "StatComponent \<Rightarrow> real \<Rightarrow> StatComponent" where
  "assign_current_value s v = s\<lparr>current_value := validate_current_value v (assignment_data s)\<rparr>"

definition assign_base_value :: "StatComponent \<Rightarrow> real \<Rightarrow> StatComponent" where
  "assign_base_value s v = s\<lparr>base_value := validate_base_value v (assignment_data s)\<rparr>"

text \<open>The two consecutive \<^verbatim>\<open>if\<close> statements of the methods (no early return).\<close>

definition apply_constraints :: "StatComponent \<Rightarrow> real \<Rightarrow> real" where
  "apply_constraints s new_value =
     (let v1 = (if below_bound new_value (min_value s) then the (min_value s) else new_value);
          v2 = (if above_bound v1 (max_value s) then the (max_value s) else v1)
      in v2)"

definition modify_value :: "StatComponent \<Rightarrow> real \<Rightarrow> real \<times> StatComponent" where
  "modify_value s modifier =
     (let new_value = apply_constraints s (current_value s + modifier);
          s' = assign_current_value s new_value
      in (current_value s', s'))"

definition reset_to_base :: "StatComponent \<Rightarrow> StatComponent" where
  "reset_to_base s = assign_current_value s (base_value s)"

definition set_base_value :: "StatComponent \<Rightarrow> real \<Rightarrow> real \<times> StatComponent" where
  "set_base_value s new_value =
     (let v = apply_constraints s new_value;
          s1 = assign_base_value s v;
          s2 = assign_current_value s1 v
      in (base_value s2, s2))"

text \<open>
  The clamp as the specification words it ("clamps to \<open>[min_value, max_value]\<close>", for
  the bounds that are set): cap at the upper bound, then raise to the lower bound.
\<close>

definition spec_clamp :: "real option \<Rightarrow> real option \<Rightarrow> real \<Rightarrow> real" where
  "spec_clamp lo hi x =
     (let y = (case hi of None \<Rightarrow> x | Some h \<Rightarrow> min h x)
      in case lo of None \<Rightarrow> y | Some l \<Rightarrow> max l y)"

text \<open>Scenario 4 of the specification: a stat built with base 10 and bounds 0 and 100.\<close>

definition scenario4_stat :: StatComponent where
  "scenario4_stat = StatComponent_init \<lparr> kw_name = ''hp'', kw_base_value = Some 10,
     kw_current_value = None, kw_min_value = Some 0, kw_max_value = Some 100,
     kw_description = None \<rparr>"

subsection \<open>StatsComponent\<close>

record StatsComponent = ComponentModel +
  stats :: "StatComponent list"
  max_stats :: "int option"

text \<open>
  The model validator \<^verbatim>\<open>validate_stats_count\<close>, run after construction and after
  an assignment to a field: Python's slice \<^verbatim>\<open>stats[:max_stats]\<close>.
\<close>

definition validate_stats_count :: "StatsComponent \<Rightarrow> StatsComponent" where
  "validate_stats_count sc =
     (case max_stats sc of
        None \<Rightarrow> sc
      | Some m \<Rightarrow> if int (length (stats sc)) > m
                  then sc\<lparr>stats := take (nat m) (stats sc)\<rparr>
                  else sc)"

text \<open>
  Construction of a collection: \<^verbatim>\<open>max_stats\<close> carries the constraint
  \<^verbatim>\<open>ge=1\<close>.
\<close>

definition StatsComponent_init :: "StatComponent list \<Rightarrow> int option \<Rightarrow> error + StatsComponent" where
  "StatsComponent_init ss m =
     (if (case m of None \<Rightarrow> False | Some k \<Rightarrow> k < 1) then Inl (ValidationError ''max_stats'')
      else Inr (validate_stats_count \<lparr> component_type = STAT, stats = ss, max_stats = m \<rparr>))"

fun get_stat_list :: "StatComponent list \<Rightarrow> string \<Rightarrow> StatComponent option" where
  "get_stat_list [] n = None"
| "get_stat_list (stat # rest) n = (if name stat = n then Some stat else get_stat_list rest n)"

definition get_stat :: "StatsComponent \<Rightarrow> string \<Rightarrow> StatComponent option" where
  "get_stat sc n = get_stat_list (stats sc) n"

definition has_stat :: "StatsComponent \<Rightarrow> string \<Rightarrow> bool" where
  "has_stat sc n = (get_stat sc n \<noteq> None)"

definition get_stat_names :: "StatsComponent \<Rightarrow> string list" where
  "get_stat_names sc = map name (stats sc)"

text \<open>\<^verbatim>\<open>remove_stat\<close>: deletes the first stat with the name and stops.\<close>

fun remove_stat_list :: "StatComponent list \<Rightarrow> string \<Rightarrow> bool \<times> StatComponent list" where
  "remove_stat_list [] n = (False, [])"
| "remove_stat_list (stat # rest) n =
     (if name stat = n then (True, rest)
      else (let (found, rest') = remove_stat_list rest n in (found, stat # rest')))"

definition remove_stat :: "StatsComponent \<Rightarrow> string \<Rightarrow> bool \<times> StatsComponent" where
  "remove_stat sc n = (let (found, ss) = remove_stat_list (stats sc) n in (found, sc\<lparr>stats := ss\<rparr>))"

text \<open>
  \<^verbatim>\<open>add_stat\<close>. The result pairs what the call returns or raises with the
  collection as the call leaves it: a removal done before a raise stays done.
  \<^verbatim>\<open>stat_data\<close> always holds \<^verbatim>\<open>min_value\<close>, \<^verbatim>\<open>max_value\<close> and
  \<^verbatim>\<open>description\<close>, and \<^verbatim>\<open>current_value\<close> only when it is given.
\<close>

definition add_stat ::
  "StatsComponent \<Rightarrow> string \<Rightarrow> real \<Rightarrow> real option \<Rightarrow> real option \<Rightarrow> real option \<Rightarrow> string \<Rightarrow> bool
     \<Rightarrow> (error + StatComponent) \<times> StatsComponent" where
  "add_stat sc n base cur min_v max_v descr replace_if_exists =
     (let existing_stat = get_stat sc n
      in if existing_stat \<noteq> None \<and> \<not> replace_if_exists then (Inl (StatAlreadyExists n), sc)
         else
           (let sc1 = (if existing_stat \<noteq> None then snd (remove_stat sc n) else sc)
            in if (case max_stats sc1 of None \<Rightarrow> False | Some m \<Rightarrow> int (length (stats sc1)) \<ge> m)
               then (Inl (MaxStatsReached (the (max_stats sc1))), sc1)
               else
                 (let new_stat = StatComponent_init
                        \<lparr> kw_name = n, kw_base_value = Some base, kw_current_value = cur,
                          kw_min_value = min_v, kw_max_value = max_v, kw_description = Some descr \<rparr>
                  in (Inr new_stat, sc1\<lparr>stats := stats sc1 @ [new_stat]\<rparr>))))"

text \<open>
  The delegating methods fetch the stat with \<^verbatim>\<open>get_stat\<close> and mutate that object
  in place: in the list, the first stat with the name changes.
\<close>

fun update_stat_list :: "StatComponent list \<Rightarrow> string \<Rightarrow> (StatComponent \<Rightarrow> StatComponent) \<Rightarrow> StatComponent list" where
  "update_stat_list [] n f = []"
| "update_stat_list (stat # rest) n f =
     (if name stat = n then f stat # rest else stat # update_stat_list rest n f)"

definition modify_stat :: "StatsComponent \<Rightarrow> string \<Rightarrow> real \<Rightarrow> real option \<times> StatsComponent" where
  "modify_stat sc n modifier =
     (case get_stat sc n of
        None \<Rightarrow> (None, sc)
      | Some stat \<Rightarrow>
          (Some (fst (modify_value stat modifier)),
           sc\<lparr>stats := update_stat_list (stats sc) n (\<lambda>s. snd (modify_value s modifier))\<rparr>))"

definition set_stat_base_value :: "StatsComponent \<Rightarrow> string \<Rightarrow> real \<Rightarrow> real option \<times> StatsComponent" where
  "set_stat_base_value sc n new_value =
     (case get_stat sc n of
        None \<Rightarrow> (None, sc)
      | Some stat \<Rightarrow>
          (Some (fst (set_base_value stat new_value)),
           sc\<lparr>stats := update_stat_list (stats sc) n (\<lambda>s. snd (set_base_value s new_value))\<rparr>))"

definition set_stat_current_value :: "StatsComponent \<Rightarrow> string \<Rightarrow> real \<Rightarrow> real option \<times> StatsComponent" where
  "set_stat_current_value sc n new_value =
     (case get_stat sc n of
        None \<Rightarrow> (None, sc)
      | Some stat \<Rightarrow>
          (Some (current_value (assign_current_value stat new_value)),
           sc\<lparr>stats := update_stat_list (stats sc) n (\<lambda>s. assign_current_value s new_value)\<rparr>))"

definition reset_stat_to_base :: "StatsComponent \<Rightarrow> string \<Rightarrow> bool \<times> StatsComponent" where
  "reset_stat_to_base sc n =
     (case get_stat sc n of
        None \<Rightarrow> (False, sc)
      | Some stat \<Rightarrow> (True, sc\<lparr>stats := update_stat_list (stats sc) n reset_to_base\<rparr>))"

text \<open>The capacity invariant that \<^verbatim>\<open>validate_stats_count\<close> establishes.\<close>

definition stats_count_ok :: "StatsComponent \<Rightarrow> bool" where
  "stats_count_ok sc = (case max_stats sc of None \<Rightarrow> True | Some m \<Rightarrow> int (length (stats sc)) \<le> m)"

text \<open>
  Scenario 3 of the specification: a collection of capacity 2, then the two calls
  \<^verbatim>\<open>add_stat("str", 10.0)\<close> and \<^verbatim>\<open>add_stat("dex", 12.0)\<close>.
\<close>

definition scenario3_empty :: StatsComponent where
  "scenario3_empty = \<lparr> component_type = STAT, stats = [], max_stats = Some 2 \<rparr>"

definition scenario3_stats :: StatsComponent where
  "scenario3_stats =
     (let sc1 = snd (add_stat scenario3_empty ''str'' 10 None None None [] False);
          sc2 = snd (add_stat sc1 ''dex'' 12 None None None [] False)
      in sc2)"

subsection \<open>InventoryCellComponent\<close>

record InventoryCellComponent = ComponentModel +
  item_id :: "string option"
  quantity :: int
  max_stack_size :: int
  slot_type :: "string option"
  is_equipped :: bool

text \<open>
  \<^verbatim>\<open>validate_quantity\<close>; \<open>values\<close> is \<^verbatim>\<open>validation_info.data\<close> restricted to
  the integer fields, and \<^verbatim>\<open>values.get("max_stack_size", 1)\<close> falls back to 1 when
  the key is absent.
\<close>

definition validate_quantity :: "int \<Rightarrow> (string \<rightharpoonup> int) \<Rightarrow> int" where
  "validate_quantity q values =
     (let max_stack = (case values ''max_stack_size'' of None \<Rightarrow> 1 | Some m \<Rightarrow> m)
      in if q > max_stack then max_stack else q)"

text \<open>The model validator \<^verbatim>\<open>validate_item_id_and_quantity\<close>.\<close>

definition validate_item_id_and_quantity :: "InventoryCellComponent \<Rightarrow> error + InventoryCellComponent" where
  "validate_item_id_and_quantity c =
     (if quantity c > 0 then
        (if item_id c = None then Inl QuantityWithoutItemId else Inr c)
      else if item_id c \<noteq> None then Inr (c\<lparr>item_id := None\<rparr>)
      else Inr c)"

text \<open>
  The structured record of a cell: a value for each field name. It is what
  \<^verbatim>\<open>model_dump\<close> produces and what the constructor takes as keyword arguments; a
  field that is \<open>None\<close> here is left to its default.
\<close>

record cell_kwargs =
  kw_component_type :: "ComponentType option"
  kw_item_id :: "string option"
  kw_quantity :: "int option"
  kw_max_stack_size :: "int option"
  kw_slot_type :: "string option"
  kw_is_equipped :: "bool option"

text \<open>
  Construction of a cell. Pydantic validates the fields in the order of their declaration,
  \<^verbatim>\<open>component_type, item_id, quantity, max_stack_size, slot_type, is_equipped\<close>:
  \<^verbatim>\<open>quantity\<close> is checked against \<^verbatim>\<open>ge=0\<close> and passed to
  \<^verbatim>\<open>validate_quantity\<close> before \<^verbatim>\<open>max_stack_size\<close> is in
  \<^verbatim>\<open>validation_info.data\<close>. Defaults are not validated. The model validator runs last.
\<close>

definition InventoryCellComponent_init :: "cell_kwargs \<Rightarrow> error + InventoryCellComponent" where
  "InventoryCellComponent_init kw =
     (if (case kw_quantity kw of None \<Rightarrow> False | Some q \<Rightarrow> q < 0)
        then Inl (ValidationError ''quantity'')
      else if (case kw_max_stack_size kw of None \<Rightarrow> False | Some m \<Rightarrow> m < 1)
        then Inl (ValidationError ''max_stack_size'')
      else validate_item_id_and_quantity
        \<lparr> component_type = (case kw_component_type kw of None \<Rightarrow> INVENTORY | Some t \<Rightarrow> t),
          item_id = kw_item_id kw,
          quantity = (case kw_quantity kw of None \<Rightarrow> 0 | Some q \<Rightarrow> validate_quantity q Map.empty),
          max_stack_size = (case kw_max_stack_size kw of None \<Rightarrow> 1 | Some m \<Rightarrow> m),
          slot_type = kw_slot_type kw,
          is_equipped = (case kw_is_equipped kw of None \<Rightarrow> False | Some b \<Rightarrow> b) \<rparr>)"

definition no_kwargs :: cell_kwargs where
  "no_kwargs = \<lparr> kw_component_type = None, kw_item_id = None, kw_quantity = None,
                  kw_max_stack_size = None, kw_slot_type = None, kw_is_equipped = None \<rparr>"

definition model_dump_cell :: "InventoryCellComponent \<Rightarrow> cell_kwargs" where
  "model_dump_cell c =
     \<lparr> kw_component_type = Some (component_type c),
       kw_item_id = item_id c,
       kw_quantity = Some (quantity c),
       kw_max_stack_size = Some (max_stack_size c),
       kw_slot_type = slot_type c,
       kw_is_equipped = Some (is_equipped c) \<rparr>"

definition is_empty :: "InventoryCellComponent \<Rightarrow> bool" where
  "is_empty c = (quantity c = 0 \<or> item_id c = None)"

definition is_full :: "InventoryCellComponent \<Rightarrow> bool" where
  "is_full c = (quantity c \<ge> max_stack_size c)"

text \<open>
  \<^verbatim>\<open>add_items\<close> and \<^verbatim>\<open>remove_items\<close> write through
  \<^verbatim>\<open>model_copy(update=...)\<close>, which stores the new values without validating them,
  and copy the result back into \<^verbatim>\<open>self\<close>.
\<close>

definition add_items :: "InventoryCellComponent \<Rightarrow> string \<Rightarrow> int \<Rightarrow> int \<times> InventoryCellComponent" where
  "add_items c iid add_quantity =
     (if add_quantity \<le> 0 then (0, c)
      else if \<not> is_empty c \<and> item_id c \<noteq> Some iid then (0, c)
      else
        (let available_space = max_stack_size c - quantity c;
             actual_add = min add_quantity available_space
         in (actual_add, c\<lparr>item_id := Some iid, quantity := quantity c + actual_add\<rparr>)))"

definition remove_items :: "InventoryCellComponent \<Rightarrow> int \<Rightarrow> int \<times> InventoryCellComponent" where
  "remove_items c remove_quantity =
     (if remove_quantity \<le> 0 \<or> is_empty c then (0, c)
      else
        (let actual_remove = min remove_quantity (quantity c);
             new_quantity = quantity c - actual_remove
         in (actual_remove,
             if new_quantity = 0 then c\<lparr>quantity := new_quantity, item_id := None\<rparr>
             else c\<lparr>quantity := new_quantity\<rparr>)))"

text \<open>The invariant of a cell: the field constraints and what the validators establish.\<close>

definition cell_inv :: "InventoryCellComponent \<Rightarrow> bool" where
  "cell_inv c =
     (1 \<le> max_stack_size c \<and> 0 \<le> quantity c \<and> quantity c \<le> max_stack_size c
      \<and> ((quantity c = 0) = (item_id c = None)))"

datatype cell_call = AddItems string int | RemoveItems int

fun cell_step :: "InventoryCellComponent \<Rightarrow> cell_call \<Rightarrow> InventoryCellComponent" where
  "cell_step c (AddItems iid n) = snd (add_items c iid n)"
| "cell_step c (RemoveItems n) = snd (remove_items c n)"

text \<open>The states of a cell after each call of a sequence, in order.\<close>

fun cell_trace :: "InventoryCellComponent \<Rightarrow> cell_call list \<Rightarrow> InventoryCellComponent list" where
  "cell_trace c [] = []"
| "cell_trace c (call # calls) = cell_step c call # cell_trace (cell_step c call) calls"

subsection \<open>InventoryComponent\<close>

record InventoryComponent = ComponentModel +
  cells :: "InventoryCellComponent list"
  max_cells :: int
  default_max_stack_size :: int

text \<open>
  The first loop of \<^verbatim>\<open>add_item\<close>. The result holds the cells, the remaining
  quantity and whether the loop left through its \<^verbatim>\<open>return quantity\<close>.
\<close>

fun add_to_existing ::
  "InventoryCellComponent list \<Rightarrow> string \<Rightarrow> int \<Rightarrow> InventoryCellComponent list \<times> int \<times> bool" where
  "add_to_existing [] iid remaining = ([], remaining, False)"
| "add_to_existing (cell # rest) iid remaining =
     (if \<not> is_empty cell \<and> item_id cell = Some iid then
        (let added = fst (add_items cell iid remaining);
             cell' = snd (add_items cell iid remaining);
             remaining' = remaining - added
         in if remaining' \<le> 0 then (cell' # rest, remaining', True)
            else (case add_to_existing rest iid remaining' of
                    (rest', r, returned) \<Rightarrow> (cell' # rest', r, returned)))
      else (case add_to_existing rest iid remaining of
              (rest', r, returned) \<Rightarrow> (cell # rest', r, returned)))"

text \<open>
  The search for the first empty cell, with the call of \<^verbatim>\<open>add_items\<close> on the cell
  found (the cell is an element of the list and changes in place). \<open>None\<close>: no cell
  is empty.
\<close>

fun add_to_first_empty ::
  "InventoryCellComponent list \<Rightarrow> string \<Rightarrow> int \<Rightarrow> (int \<times> InventoryCellComponent list) option" where
  "add_to_first_empty [] iid remaining = None"
| "add_to_first_empty (cell # rest) iid remaining =
     (if is_empty cell then Some (fst (add_items cell iid remaining), snd (add_items cell iid remaining) # rest)
      else (case add_to_first_empty rest iid remaining of
              None \<Rightarrow> None
            | Some (added, rest') \<Rightarrow> Some (added, cell # rest')))"

text \<open>
  The \<^verbatim>\<open>while\<close> loop of \<^verbatim>\<open>add_item\<close>; it yields the remaining quantity, or
  the error of the constructor of a new cell. Nothing in the loop bounds the number of its
  rounds, so the model is a partial function: \<open>None\<close> stands for a loop that never ends.
\<close>

partial_function (option) add_to_empty_cells ::
  "InventoryComponent \<Rightarrow> string \<Rightarrow> int option \<Rightarrow> int \<Rightarrow> ((error + int) \<times> InventoryComponent) option" where
  "add_to_empty_cells invt iid mss remaining =
     (if remaining > 0 then
        (case add_to_first_empty (cells invt) iid remaining of
           Some (added, cells') \<Rightarrow>
             add_to_empty_cells (invt\<lparr>cells := cells'\<rparr>) iid mss (remaining - added)
         | None \<Rightarrow>
             (if int (length (cells invt)) < max_cells invt then
                (case InventoryCellComponent_init
                        (no_kwargs\<lparr>kw_max_stack_size :=
                           Some (case mss of None \<Rightarrow> default_max_stack_size invt | Some m \<Rightarrow> m)\<rparr>) of
                   Inl e \<Rightarrow> Some (Inl e, invt)
                 | Inr new_cell \<Rightarrow>
                     add_to_empty_cells
                       (invt\<lparr>cells := cells invt @ [snd (add_items new_cell iid remaining)]\<rparr>) iid mss
                       (remaining - fst (add_items new_cell iid remaining)))
              else Some (Inr remaining, invt)))
      else Some (Inr remaining, invt))"

definition add_item ::
  "InventoryComponent \<Rightarrow> string \<Rightarrow> int \<Rightarrow> int option \<Rightarrow> ((error + int) \<times> InventoryComponent) option" where
  "add_item invt iid qty mss =
     (if qty \<le> 0 then Some (Inr 0, invt)
      else
        (case add_to_existing (cells invt) iid qty of
           (cells1, remaining, returned) \<Rightarrow>
             if returned then Some (Inr qty, invt\<lparr>cells := cells1\<rparr>)
             else (case add_to_empty_cells (invt\<lparr>cells := cells1\<rparr>) iid mss remaining of
                     None \<Rightarrow> None
                   | Some (Inl e, invt') \<Rightarrow> Some (Inl e, invt')
                   | Some (Inr remaining', invt') \<Rightarrow> Some (Inr (qty - remaining'), invt'))))"

text \<open>The loop of \<^verbatim>\<open>remove_item\<close>, in the shape of the first loop of \<^verbatim>\<open>add_item\<close>.\<close>

fun remove_from_cells ::
  "InventoryCellComponent list \<Rightarrow> string \<Rightarrow> int \<Rightarrow> InventoryCellComponent list \<times> int \<times> bool" where
  "remove_from_cells [] iid remaining = ([], remaining, False)"
| "remove_from_cells (cell # rest) iid remaining =
     (if \<not> is_empty cell \<and> item_id cell = Some iid then
        (let removed = fst (remove_items cell remaining);
             cell' = snd (remove_items cell remaining);
             remaining' = remaining - removed
         in if remaining' \<le> 0 then (cell' # rest, remaining', True)
            else (case remove_from_cells rest iid remaining' of
                    (rest', r, returned) \<Rightarrow> (cell' # rest', r, returned)))
      else (case remove_from_cells rest iid remaining of
              (rest', r, returned) \<Rightarrow> (cell # rest', r, returned)))"

definition remove_item :: "InventoryComponent \<Rightarrow> string \<Rightarrow> int \<Rightarrow> int \<times> InventoryComponent" where
  "remove_item invt iid qty =
     (if qty \<le> 0 then (0, invt)
      else
        (case remove_from_cells (cells invt) iid qty of
           (cells', remaining, returned) \<Rightarrow>
             (if returned then qty else qty - remaining, invt\<lparr>cells := cells'\<rparr>)))"

fun get_item_count_list :: "InventoryCellComponent list \<Rightarrow> string \<Rightarrow> int" where
  "get_item_count_list [] iid = 0"
| "get_item_count_list (cell # rest) iid =
     (if \<not> is_empty cell \<and> item_id cell = Some iid
      then quantity cell + get_item_count_list rest iid
      else get_item_count_list rest iid)"

definition get_item_count :: "InventoryComponent \<Rightarrow> string \<Rightarrow> int" where
  "get_item_count invt iid = get_item_count_list (cells invt) iid"

text \<open>
  The invariant of an inventory that the theorems use: every cell is a valid cell and the
  default stack size respects its constraint \<^verbatim>\<open>ge=1\<close>.
\<close>

definition inventory_inv :: "InventoryComponent \<Rightarrow> bool" where
  "inventory_inv invt = (list_all cell_inv (cells invt) \<and> 1 \<le> default_max_stack_size invt)"

definition stack_size_ok :: "int option \<Rightarrow> bool" where
  "stack_size_ok mss = (case mss of None \<Rightarrow> True | Some m \<Rightarrow> 1 \<le> m)"

subsection \<open>The allocation of \<^verbatim>\<open>add_item\<close> as the specification words it\<close>

text \<open>
  Three passes over the cells in their order: the cells that hold the item, then the empty
  cells, then new cells while the inventory has room. Each pass goes on only while a
  quantity remains.
\<close>

fun spec_fill_matching ::
  "InventoryCellComponent list \<Rightarrow> string \<Rightarrow> int \<Rightarrow> InventoryCellComponent list \<times> int" where
  "spec_fill_matching [] iid r = ([], r)"
| "spec_fill_matching (c # cs) iid r =
     (if r > 0 \<and> \<not> is_empty c \<and> item_id c = Some iid
      then (snd (add_items c iid r) # fst (spec_fill_matching cs iid (r - fst (add_items c iid r))),
            snd (spec_fill_matching cs iid (r - fst (add_items c iid r))))
      else (c # fst (spec_fill_matching cs iid r), snd (spec_fill_matching cs iid r)))"

fun spec_fill_empty ::
  "InventoryCellComponent list \<Rightarrow> string \<Rightarrow> int \<Rightarrow> InventoryCellComponent list \<times> int" where
  "spec_fill_empty [] iid r = ([], r)"
| "spec_fill_empty (c # cs) iid r =
     (if r > 0 \<and> is_empty c
      then (snd (add_items c iid r) # fst (spec_fill_empty cs iid (r - fst (add_items c iid r))),
            snd (spec_fill_empty cs iid (r - fst (add_items c iid r))))
      else (c # fst (spec_fill_empty cs iid r), snd (spec_fill_empty cs iid r)))"

definition spec_new_cell :: "int \<Rightarrow> string \<Rightarrow> int \<Rightarrow> InventoryCellComponent" where
  "spec_new_cell stack iid r =
     \<lparr> component_type = INVENTORY, item_id = Some iid, quantity = min r stack,
       max_stack_size = stack, slot_type = None, is_equipped = False \<rparr>"

fun spec_append_new :: "nat \<Rightarrow> int \<Rightarrow> string \<Rightarrow> int \<Rightarrow> InventoryCellComponent list \<times> int" where
  "spec_append_new 0 stack iid r = ([], r)"
| "spec_append_new (Suc free) stack iid r =
     (if r > 0
      then (spec_new_cell stack iid r # fst (spec_append_new free stack iid (r - min r stack)),
            snd (spec_append_new free stack iid (r - min r stack)))
      else ([], r))"

definition spec_add_item ::
  "InventoryComponent \<Rightarrow> string \<Rightarrow> int \<Rightarrow> int option \<Rightarrow> int \<times> InventoryComponent" where
  "spec_add_item invt iid qty mss =
     (if qty \<le> 0 then (0, invt)
      else
        (let stack = (case mss of None \<Rightarrow> default_max_stack_size invt | Some m \<Rightarrow> m);
             p1 = spec_fill_matching (cells invt) iid qty;
             p2 = spec_fill_empty (fst p1) iid (snd p1);
             p3 = spec_append_new (nat (max_cells invt - int (length (cells invt)))) stack iid (snd p2)
         in (qty - snd p3, invt\<lparr>cells := fst p2 @ fst p3\<rparr>)))"

subsection \<open>Predicates and inputs of the theorems\<close>

text \<open>A value lies within the bounds of a stat that are set.\<close>

definition within_bounds :: "StatComponent \<Rightarrow> real \<Rightarrow> bool" where
  "within_bounds s v = (\<not> below_bound v (min_value s) \<and> \<not> above_bound v (max_value s))"

text \<open>When both bounds are set, the lower one does not exceed the upper one.\<close>

definition bounds_ordered :: "StatComponent \<Rightarrow> bool" where
  "bounds_ordered s = (case (min_value s, max_value s) of (Some lo, Some hi) \<Rightarrow> lo \<le> hi | _ \<Rightarrow> True)"

text \<open>
  \<^verbatim>\<open>StatComponent(name="hp", base_value=-5.0, min_value=0.0, max_value=100.0)\<close>
\<close>

definition unclamped_stat :: StatComponent where
  "unclamped_stat = StatComponent_init \<lparr> kw_name = ''hp'', kw_base_value = Some (- 5),
     kw_current_value = None, kw_min_value = Some 0, kw_max_value = Some 100,
     kw_description = None \<rparr>"

text \<open>
  \<^verbatim>\<open>InventoryCellComponent(max_stack_size=5)\<close>, and that cell after
  \<^verbatim>\<open>add_items("potion", 3)\<close>.
\<close>

definition new_cell5 :: InventoryCellComponent where
  "new_cell5 = \<lparr> component_type = INVENTORY, item_id = None, quantity = 0,
      max_stack_size = 5, slot_type = None, is_equipped = False \<rparr>"

definition potion_cell :: InventoryCellComponent where
  "potion_cell = snd (add_items new_cell5 ''potion'' 3)"

text \<open>The stack size of a cell that \<^verbatim>\<open>add_item\<close> creates.\<close>

definition stack_size_for :: "InventoryComponent \<Rightarrow> int option \<Rightarrow> int" where
  "stack_size_for invt mss = (case mss of None \<Rightarrow> default_max_stack_size invt | Some m \<Rightarrow> m)"

text \<open>
  An inventory of capacity 4 with a cell of 3 potions, an empty cell and an equipped sword.
\<close>

definition mixed_inventory :: InventoryComponent where
  "mixed_inventory =
     \<lparr> component_type = INVENTORY,
       cells = [\<lparr> component_type = INVENTORY, item_id = Some ''potion'', quantity = 3,
                  max_stack_size = 5, slot_type = None, is_equipped = False \<rparr>,
                \<lparr> component_type = INVENTORY, item_id = None, quantity = 0,
                  max_stack_size = 5, slot_type = None, is_equipped = False \<rparr>,
                \<lparr> component_type = INVENTORY, item_id = Some ''sword'', quantity = 1,
                  max_stack_size = 1, slot_type = None, is_equipped = True \<rparr>],
       max_cells = 4, default_max_stack_size = 5 \<rparr>"

text \<open>\<^verbatim>\<open>InventoryComponent(max_cells=2, default_max_stack_size=5)\<close>\<close>

definition empty_inventory :: InventoryComponent where
  "empty_inventory = \<lparr> component_type = INVENTORY, cells = [], max_cells = 2,
                        default_max_stack_size = 5 \<rparr>"

text \<open>That inventory with cells of stack size 5 that hold the given numbers of potions.\<close>

definition potions :: "int list \<Rightarrow> InventoryComponent" where
  "potions qs = empty_inventory\<lparr>cells :=
      map (\<lambda>q. \<lparr> component_type = INVENTORY, item_id = Some ''potion'', quantity = q,
                  max_stack_size = 5, slot_type = None, is_equipped = False \<rparr>) qs\<rparr>"

text \<open>
  What \<^verbatim>\<open>remove_item\<close> may do to a cell: nothing, or store a new quantity,
  clearing \<^verbatim>\<open>item_id\<close> when that quantity is 0; every other field stays.
\<close>

definition unchanged_but_removed :: "InventoryCellComponent \<Rightarrow> InventoryCellComponent \<Rightarrow> bool" where
  "unchanged_but_removed c c' =
     (c' = c \<or> c' = c\<lparr>quantity := quantity c',
                        item_id := (if quantity c' = 0 then None else item_id c)\<rparr>)"

text \<open>An inventory whose first cell holds one sword and whose second holds 3 potions.\<close>

definition sword_inventory :: InventoryComponent where
  "sword_inventory =
     \<lparr> component_type = INVENTORY,
       cells = [\<lparr> component_type = INVENTORY, item_id = Some ''sword'', quantity = 1,
                  max_stack_size = 1, slot_type = None, is_equipped = False \<rparr>,
                \<lparr> component_type = INVENTORY, item_id = Some ''potion'', quantity = 3,
                  max_stack_size = 5, slot_type = None, is_equipped = False \<rparr>],
       max_cells = 10, default_max_stack_size = 1 \<rparr>"

section \<open>Properties of StatComponent\<close>

lemma data_get_assignment [simp]:
  "data_get (assignment_data s) ''min_value'' = min_value s"
  "data_get (assignment_data s) ''max_value'' = max_value s"
  by (simp_all add: data_get_def assignment_data_def)

lemma modify_value_result:
  "fst (modify_value s d) = spec_clamp (min_value s) (max_value s) (current_value s + d)"
  by (auto simp: modify_value_def assign_current_value_def validate_current_value_def
      apply_constraints_def spec_clamp_def below_bound_def above_bound_def Let_def
      split: option.splits)

lemma modify_value_state:
  "snd (modify_value s d) = s\<lparr>current_value := fst (modify_value s d)\<rparr>"
  by (simp add: modify_value_def assign_current_value_def Let_def)

lemma scenario4_stat_fields:
  "scenario4_stat = \<lparr> component_type = STAT, name = ''hp'', base_value = 10, current_value = 10,
      min_value = Some 0, max_value = Some 100, description = [] \<rparr>"
  by (simp add: scenario4_stat_def StatComponent_init_def validate_base_value_def
      validate_current_value_def data_get_def below_bound_def above_bound_def)

text \<open>
  Claim C6. For every stat and every delta, \<^verbatim>\<open>modify_value\<close> adds the delta to
  \<^verbatim>\<open>current_value\<close>, clamps the sum to the bounds that are set, stores the result in
  \<^verbatim>\<open>current_value\<close> and returns it; \<^verbatim>\<open>base_value\<close> keeps its value. On the
  stat of scenario 4 (base 10, bounds 0 and 100), \<^verbatim>\<open>modify_value(-50)\<close> returns 0,
  leaves \<^verbatim>\<open>current_value\<close> at 0 and \<^verbatim>\<open>base_value\<close> at 10.
\<close>

theorem modify_value_clamps:
  "fst (modify_value s d) = spec_clamp (min_value s) (max_value s) (current_value s + d)
   \<and> snd (modify_value s d) = s\<lparr>current_value := fst (modify_value s d)\<rparr>
   \<and> base_value (snd (modify_value s d)) = base_value s
   \<and> fst (modify_value scenario4_stat (- 50)) = 0
   \<and> current_value (snd (modify_value scenario4_stat (- 50))) = 0
   \<and> base_value (snd (modify_value scenario4_stat (- 50))) = 10"
proof -
  have gen: "fst (modify_value s d) = spec_clamp (min_value s) (max_value s) (current_value s + d)"
    by (rule modify_value_result)
  have st: "snd (modify_value s d) = s\<lparr>current_value := fst (modify_value s d)\<rparr>"
    by (rule modify_value_state)
  have base: "base_value (snd (modify_value s d)) = base_value s"
    by (simp add: modify_value_state)
  have scen: "fst (modify_value scenario4_stat (- 50)) = 0"
    by (simp add: modify_value_result scenario4_stat_fields spec_clamp_def)
  have scen_cur: "current_value (snd (modify_value scenario4_stat (- 50))) = 0"
    by (simp add: modify_value_state scen)
  have scen_base: "base_value (snd (modify_value scenario4_stat (- 50))) = 10"
    by (simp add: modify_value_state scenario4_stat_fields)
  from gen st base scen scen_cur scen_base show ?thesis by blast
qed

lemma unclamped_stat_fields:
  "unclamped_stat = \<lparr> component_type = STAT, name = ''hp'', base_value = - 5, current_value = - 5,
      min_value = Some 0, max_value = Some 100, description = [] \<rparr>"
  by (simp add: unclamped_stat_def StatComponent_init_def validate_base_value_def
      validate_current_value_def data_get_def below_bound_def above_bound_def)

text \<open>
  Claim C1, at the input \<^verbatim>\<open>StatComponent(name="hp", base_value=-5.0, min_value=0.0,
  max_value=100.0)\<close>: the constructor stores \<^verbatim>\<open>base_value\<close> and
  \<^verbatim>\<open>current_value\<close> as \<open>-5\<close>, below the lower bound 0, and
  \<^verbatim>\<open>base_value\<close> is still \<open>-5\<close> after \<^verbatim>\<open>modify_value(1.0)\<close>. The
  claim asks for both values within the bounds after construction and after every
  \<^verbatim>\<open>modify_value\<close>.
\<close>

theorem construction_does_not_clamp:
  "min_value unclamped_stat = Some 0 \<and> max_value unclamped_stat = Some 100
   \<and> base_value unclamped_stat = - 5 \<and> current_value unclamped_stat = - 5
   \<and> \<not> within_bounds unclamped_stat (base_value unclamped_stat)
   \<and> \<not> within_bounds unclamped_stat (current_value unclamped_stat)
   \<and> base_value (snd (modify_value unclamped_stat 1)) = - 5
   \<and> \<not> within_bounds (snd (modify_value unclamped_stat 1)) (base_value (snd (modify_value unclamped_stat 1)))"
  by (simp add: modify_value_state unclamped_stat_fields within_bounds_def below_bound_def above_bound_def)

text \<open>
  What the mutating methods do guarantee, for bounds in order: the value
  \<^verbatim>\<open>modify_value\<close> stores, and both values \<^verbatim>\<open>set_base_value\<close> stores, lie
  within the bounds.
\<close>

lemma modify_value_within_bounds:
  assumes "bounds_ordered s"
  shows "within_bounds (snd (modify_value s d)) (current_value (snd (modify_value s d)))"
  using assms
  by (auto simp: modify_value_state modify_value_result within_bounds_def bounds_ordered_def
      spec_clamp_def below_bound_def above_bound_def split: option.splits)

lemma set_base_value_within_bounds:
  assumes "bounds_ordered s"
  shows "within_bounds (snd (set_base_value s v)) (current_value (snd (set_base_value s v)))
       \<and> within_bounds (snd (set_base_value s v)) (base_value (snd (set_base_value s v)))"
  using assms
  by (auto simp: set_base_value_def assign_base_value_def assign_current_value_def
      validate_base_value_def validate_current_value_def apply_constraints_def
      within_bounds_def bounds_ordered_def data_get_def assignment_data_def
      below_bound_def above_bound_def Let_def split: option.splits)

text \<open>
  For bounds in order, \<open>spec_clamp\<close> yields a value within the bounds and keeps a
  value that already lies within them.
\<close>

lemma spec_clamp_within_bounds:
  assumes "bounds_ordered s"
  shows "within_bounds s (spec_clamp (min_value s) (max_value s) x)"
  using assms
  by (auto simp: within_bounds_def bounds_ordered_def spec_clamp_def below_bound_def
      above_bound_def split: option.splits)

lemma spec_clamp_fixes_within_bounds:
  assumes "within_bounds s x"
  shows "spec_clamp (min_value s) (max_value s) x = x"
  using assms
  by (auto simp: within_bounds_def spec_clamp_def below_bound_def above_bound_def
      split: option.splits)

section \<open>Properties of InventoryCellComponent\<close>

lemma new_cell5_init:
  "InventoryCellComponent_init (no_kwargs\<lparr>kw_max_stack_size := Some 5\<rparr>) = Inr new_cell5"
  by (simp add: InventoryCellComponent_init_def no_kwargs_def new_cell5_def
      validate_item_id_and_quantity_def)

lemma potion_cell_fields:
  "potion_cell = \<lparr> component_type = INVENTORY, item_id = Some ''potion'', quantity = 3,
      max_stack_size = 5, slot_type = None, is_equipped = False \<rparr>"
  by (simp add: potion_cell_def new_cell5_def add_items_def is_empty_def)

text \<open>
  Claim C4, at a cell of stack size 5 that holds 3 potions (built by
  \<^verbatim>\<open>InventoryCellComponent(max_stack_size=5)\<close> and \<^verbatim>\<open>add_items("potion", 3)\<close>):
  building a cell from the record that \<^verbatim>\<open>model_dump\<close> gives yields a cell of
  quantity 1, not the original. The claim asks for a cell equal to the original in every
  field.
\<close>

theorem cell_round_trip_changes_quantity:
  "InventoryCellComponent_init (no_kwargs\<lparr>kw_max_stack_size := Some 5\<rparr>) = Inr new_cell5
   \<and> quantity potion_cell = 3 \<and> max_stack_size potion_cell = 5
   \<and> InventoryCellComponent_init (model_dump_cell potion_cell) = Inr (potion_cell\<lparr>quantity := 1\<rparr>)
   \<and> InventoryCellComponent_init (model_dump_cell potion_cell) \<noteq> Inr potion_cell"
proof -
  have "InventoryCellComponent_init (model_dump_cell potion_cell) = Inr (potion_cell\<lparr>quantity := 1\<rparr>)"
    by (simp add: potion_cell_fields model_dump_cell_def InventoryCellComponent_init_def
        validate_quantity_def validate_item_id_and_quantity_def)
  then show ?thesis
    by (simp add: new_cell5_init) (simp add: potion_cell_fields)
qed

lemma add_items_cell_inv:
  assumes "cell_inv c"
  shows "cell_inv (snd (add_items c iid n))"
  using assms
  by (auto simp: add_items_def cell_inv_def is_empty_def Let_def)

lemma remove_items_cell_inv:
  assumes "cell_inv c"
  shows "cell_inv (snd (remove_items c n))"
  using assms
  by (auto simp: remove_items_def cell_inv_def is_empty_def Let_def)

lemma cell_step_inv: "cell_inv c \<Longrightarrow> cell_inv (cell_step c call)"
  by (cases call) (simp_all add: add_items_cell_inv remove_items_cell_inv)

text \<open>Every cell that the constructor returns satisfies the invariant.\<close>

lemma cell_init_inv:
  assumes "InventoryCellComponent_init kw = Inr c"
  shows "cell_inv c"
  using assms
  by (auto simp: InventoryCellComponent_init_def validate_item_id_and_quantity_def
      validate_quantity_def cell_inv_def Let_def split: if_splits option.splits)

lemma cell_trace_inv: "cell_inv c \<Longrightarrow> list_all cell_inv (cell_trace c calls)"
proof (induction calls arbitrary: c)
  case Nil
  then show ?case by simp
next
  case (Cons call calls)
  have step: "cell_inv (cell_step c call)"
    using Cons.prems by (rule cell_step_inv)
  from step Cons.IH [OF step] show ?case by simp
qed

text \<open>
  Claim C3. For every cell that the constructor returns and every finite sequence of calls
  of \<^verbatim>\<open>add_items\<close> and \<^verbatim>\<open>remove_items\<close>, the cell satisfies after each call
  \<open>0 \<le> quantity \<le> max_stack_size\<close>, and its quantity is 0 exactly when its
  \<^verbatim>\<open>item_id\<close> is \<open>None\<close>.
\<close>

theorem cell_calls_keep_invariant:
  assumes "InventoryCellComponent_init kw = Inr c"
  shows "list_all (\<lambda>c'. 0 \<le> quantity c' \<and> quantity c' \<le> max_stack_size c'
                        \<and> ((quantity c' = 0) = (item_id c' = None)))
           (cell_trace c calls)"
proof -
  have "list_all cell_inv (cell_trace c calls)"
    using cell_init_inv [OF assms] by (rule cell_trace_inv)
  then show ?thesis
    by (simp add: list_all_iff cell_inv_def)
qed

theorem cell_calls_keep_invariant_witness:
  "InventoryCellComponent_init (no_kwargs\<lparr>kw_max_stack_size := Some 5\<rparr>) = Inr new_cell5
   \<and> cell_trace new_cell5 [AddItems ''potion'' 3, AddItems ''potion'' 5, RemoveItems 7]
       = [new_cell5\<lparr>item_id := Some ''potion'', quantity := 3\<rparr>,
          new_cell5\<lparr>item_id := Some ''potion'', quantity := 5\<rparr>,
          new_cell5]
   \<and> list_all (\<lambda>c'. 0 \<le> quantity c' \<and> quantity c' \<le> max_stack_size c'
                        \<and> ((quantity c' = 0) = (item_id c' = None)))
           (cell_trace new_cell5 [AddItems ''potion'' 3, AddItems ''potion'' 5, RemoveItems 7])"
proof -
  have tr: "cell_trace new_cell5 [AddItems ''potion'' 3, AddItems ''potion'' 5, RemoveItems 7]
       = [new_cell5\<lparr>item_id := Some ''potion'', quantity := 3\<rparr>,
          new_cell5\<lparr>item_id := Some ''potion'', quantity := 5\<rparr>,
          new_cell5]"
    by (simp add: new_cell5_def add_items_def remove_items_def is_empty_def)
  from new_cell5_init tr
    cell_calls_keep_invariant [OF new_cell5_init,
      of "[AddItems ''potion'' 3, AddItems ''potion'' 5, RemoveItems 7]"]
  show ?thesis by blast
qed

section \<open>Properties of StatsComponent\<close>

lemma get_stat_list_None: "(get_stat_list ss n = None) = (n \<notin> set (map name ss))"
  by (induction ss) auto

lemma get_stat_None: "(get_stat sc n = None) = (n \<notin> set (get_stat_names sc))"
  by (simp add: get_stat_def get_stat_names_def get_stat_list_None)

lemma remove_stat_list_absent: "get_stat_list ss n = None \<Longrightarrow> remove_stat_list ss n = (False, ss)"
  by (induction ss) (auto split: if_splits)

lemma remove_stat_list_present:
  "get_stat_list ss n \<noteq> None \<Longrightarrow>
   \<exists>before old after. ss = before @ old # after \<and> name old = n \<and> n \<notin> set (map name before)
      \<and> remove_stat_list ss n = (True, before @ after)"
proof (induction ss)
  case Nil
  then show ?case by simp
next
  case (Cons s ss)
  show ?case
  proof (cases "name s = n")
    case True
    then have "s # ss = [] @ s # ss \<and> name s = n \<and> n \<notin> set (map name [])
       \<and> remove_stat_list (s # ss) n = (True, [] @ ss)" by simp
    then show ?thesis by blast
  next
    case False
    with Cons.prems have "get_stat_list ss n \<noteq> None" by simp
    from Cons.IH [OF this] obtain before old after where
      h: "ss = before @ old # after" "name old = n" "n \<notin> set (map name before)"
         "remove_stat_list ss n = (True, before @ after)" by blast
    with False have "s # ss = (s # before) @ old # after \<and> name old = n
       \<and> n \<notin> set (map name (s # before))
       \<and> remove_stat_list (s # ss) n = (True, (s # before) @ after)" by auto
    then show ?thesis by blast
  qed
qed

lemma scenario3_stats_fields:
  "scenario3_stats = \<lparr> component_type = STAT,
      stats = [\<lparr> component_type = STAT, name = ''str'', base_value = 10, current_value = 10,
                min_value = None, max_value = None, description = [] \<rparr>,
               \<lparr> component_type = STAT, name = ''dex'', base_value = 12, current_value = 12,
                min_value = None, max_value = None, description = [] \<rparr>],
      max_stats = Some 2 \<rparr>"
  by (simp add: scenario3_stats_def scenario3_empty_def add_stat_def get_stat_def
      remove_stat_def StatComponent_init_def validate_base_value_def validate_current_value_def
      data_get_def below_bound_def above_bound_def Let_def)

text \<open>
  Claim C8. For every collection and every name that no stat of it has,
  \<^verbatim>\<open>modify_stat\<close>, \<^verbatim>\<open>set_stat_base_value\<close> and
  \<^verbatim>\<open>set_stat_current_value\<close> return \<open>None\<close>, \<^verbatim>\<open>reset_stat_to_base\<close> and
  \<^verbatim>\<open>remove_stat\<close> return \<open>False\<close>; each call returns (none raises) and leaves
  the collection as it was.
\<close>

theorem absent_name_is_not_an_error:
  assumes "n \<notin> set (get_stat_names sc)"
  shows "modify_stat sc n d = (None, sc)
       \<and> set_stat_base_value sc n v = (None, sc)
       \<and> set_stat_current_value sc n v = (None, sc)
       \<and> reset_stat_to_base sc n = (False, sc)
       \<and> remove_stat sc n = (False, sc)"
proof -
  from assms have g: "get_stat sc n = None" by (simp add: get_stat_None)
  then have "remove_stat_list (stats sc) n = (False, stats sc)"
    by (simp add: get_stat_def remove_stat_list_absent)
  then have "remove_stat sc n = (False, sc)" by (simp add: remove_stat_def)
  with g show ?thesis
    by (simp add: modify_stat_def set_stat_base_value_def set_stat_current_value_def
        reset_stat_to_base_def)
qed

theorem absent_name_is_not_an_error_witness:
  "''int'' \<notin> set (get_stat_names scenario3_stats)
   \<and> modify_stat scenario3_stats ''int'' 1 = (None, scenario3_stats)
   \<and> set_stat_base_value scenario3_stats ''int'' 1 = (None, scenario3_stats)
   \<and> set_stat_current_value scenario3_stats ''int'' 1 = (None, scenario3_stats)
   \<and> reset_stat_to_base scenario3_stats ''int'' = (False, scenario3_stats)
   \<and> remove_stat scenario3_stats ''int'' = (False, scenario3_stats)"
proof -
  have h: "''int'' \<notin> set (get_stat_names scenario3_stats)"
    by (simp add: get_stat_names_def scenario3_stats_fields)
  from h absent_name_is_not_an_error [OF h, of 1 1] show ?thesis by blast
qed

lemma has_stat_names: "has_stat sc n = (n \<in> set (get_stat_names sc))"
  using get_stat_None [of sc n] by (auto simp: has_stat_def)

lemma add_stat_duplicate:
  "has_stat sc n \<Longrightarrow> add_stat sc n b c lo hi d False = (Inl (StatAlreadyExists n), sc)"
  by (simp add: add_stat_def has_stat_def)

lemma add_stat_full:
  "\<not> has_stat sc n \<Longrightarrow> max_stats sc = Some m \<Longrightarrow> m \<le> int (length (stats sc)) \<Longrightarrow>
   add_stat sc n b c lo hi d r = (Inl (MaxStatsReached m), sc)"
  by (simp add: add_stat_def has_stat_def)

lemma remove_stat_list_length:
  "get_stat_list ss n \<noteq> None \<Longrightarrow> Suc (length (snd (remove_stat_list ss n))) = length ss"
  using remove_stat_list_present [of ss n] by auto

lemma remove_stat_snd: "snd (remove_stat sc n) = sc\<lparr>stats := snd (remove_stat_list (stats sc) n)\<rparr>"
  by (simp add: remove_stat_def split_beta)

lemma add_stat_replace_ok:
  assumes "has_stat sc n" "stats_count_ok sc"
  shows "add_stat sc n b c lo hi d True =
     (Inr (StatComponent_init \<lparr> kw_name = n, kw_base_value = Some b, kw_current_value = c,
              kw_min_value = lo, kw_max_value = hi, kw_description = Some d \<rparr>),
      sc\<lparr>stats := snd (remove_stat_list (stats sc) n) @
           [StatComponent_init \<lparr> kw_name = n, kw_base_value = Some b, kw_current_value = c,
              kw_min_value = lo, kw_max_value = hi, kw_description = Some d \<rparr>]\<rparr>)"
proof -
  from assms(1) have g: "get_stat_list (stats sc) n \<noteq> None"
    by (simp add: has_stat_def get_stat_def)
  have len: "Suc (length (snd (remove_stat_list (stats sc) n))) = length (stats sc)"
    using g by (rule remove_stat_list_length)
  have cap: "\<not> (case max_stats sc of None \<Rightarrow> False
               | Some m \<Rightarrow> int (length (stats (snd (remove_stat sc n)))) \<ge> m)"
    using assms(2) len by (auto simp: stats_count_ok_def remove_stat_snd split: option.splits)
  have ms: "max_stats (snd (remove_stat sc n)) = max_stats sc"
    by (simp add: remove_stat_snd)
  have st: "stats (snd (remove_stat sc n)) = snd (remove_stat_list (stats sc) n)"
    by (simp add: remove_stat_snd)
  show ?thesis
    using g cap
    by (simp add: add_stat_def get_stat_def ms Let_def) (simp add: remove_stat_snd)
qed

lemma add_stat_failure_unchanged:
  assumes "stats_count_ok sc" "fst (add_stat sc n b c lo hi d r) = Inl e"
  shows "snd (add_stat sc n b c lo hi d r) = sc"
proof (cases "has_stat sc n")
  case True
  show ?thesis
  proof (cases r)
    case True
    with \<open>has_stat sc n\<close> assms show ?thesis by (simp add: add_stat_replace_ok)
  next
    case False
    with \<open>has_stat sc n\<close> show ?thesis by (simp add: add_stat_duplicate)
  qed
next
  case False
  with assms(2) show ?thesis
    by (auto simp: add_stat_def has_stat_def Let_def split: if_splits)
qed

text \<open>
  Claim C5. \<^verbatim>\<open>add_stat\<close> raises the duplicate-name error when a stat with the name
  exists and \<^verbatim>\<open>replace_if_exists\<close> is false, and the capacity error when the name
  is new and the collection already holds \<^verbatim>\<open>max_stats\<close> stats; whenever a call
  on a collection within its capacity raises, the collection is as it was before the call.
  Both errors are \<^verbatim>\<open>ValueError\<close> in the code, told apart by their message.
\<close>

theorem add_stat_failures:
  "(has_stat sc n \<longrightarrow> add_stat sc n b c lo hi d False = (Inl (StatAlreadyExists n), sc))
   \<and> (\<not> has_stat sc n \<and> max_stats sc = Some m \<and> m \<le> int (length (stats sc)) \<longrightarrow>
        add_stat sc n b c lo hi d r = (Inl (MaxStatsReached m), sc))
   \<and> (stats_count_ok sc \<and> fst (add_stat sc n b c lo hi d r) = Inl e \<longrightarrow>
        snd (add_stat sc n b c lo hi d r) = sc)"
proof (intro conjI impI)
  assume "has_stat sc n"
  then show "add_stat sc n b c lo hi d False = (Inl (StatAlreadyExists n), sc)"
    by (rule add_stat_duplicate)
next
  assume "\<not> has_stat sc n \<and> max_stats sc = Some m \<and> m \<le> int (length (stats sc))"
  then show "add_stat sc n b c lo hi d r = (Inl (MaxStatsReached m), sc)"
    by (simp add: add_stat_full)
next
  assume "stats_count_ok sc \<and> fst (add_stat sc n b c lo hi d r) = Inl e"
  then show "snd (add_stat sc n b c lo hi d r) = sc"
    by (simp add: add_stat_failure_unchanged)
qed

theorem add_stat_failures_witness:
  "has_stat scenario3_stats ''str''
   \<and> add_stat scenario3_stats ''str'' 1 None None None [] False
        = (Inl (StatAlreadyExists ''str''), scenario3_stats)
   \<and> \<not> has_stat scenario3_stats ''int'' \<and> max_stats scenario3_stats = Some 2
   \<and> 2 \<le> int (length (stats scenario3_stats))
   \<and> stats_count_ok scenario3_stats
   \<and> add_stat scenario3_stats ''int'' 1 None None None [] False
        = (Inl (MaxStatsReached 2), scenario3_stats)
   \<and> length (stats (snd (add_stat scenario3_stats ''int'' 1 None None None [] False))) = 2"
proof -
  have h1: "has_stat scenario3_stats ''str''"
    by (simp add: has_stat_names get_stat_names_def scenario3_stats_fields)
  have h2: "\<not> has_stat scenario3_stats ''int''"
    by (simp add: has_stat_names get_stat_names_def scenario3_stats_fields)
  have h3: "max_stats scenario3_stats = Some 2" "2 \<le> int (length (stats scenario3_stats))"
     "stats_count_ok scenario3_stats" "length (stats scenario3_stats) = 2"
    by (simp_all add: scenario3_stats_fields stats_count_ok_def)
  from add_stat_failures [of scenario3_stats "''str''" 1 None None None "[]" 2 False, THEN conjunct1] h1
  have a: "add_stat scenario3_stats ''str'' 1 None None None [] False
        = (Inl (StatAlreadyExists ''str''), scenario3_stats)" by blast
  from add_stat_failures [of scenario3_stats "''int''" 1 None None None "[]" 2 False] h2 h3
  have b: "add_stat scenario3_stats ''int'' 1 None None None [] False
        = (Inl (MaxStatsReached 2), scenario3_stats)" by blast
  from h1 h2 h3 a b show ?thesis by simp
qed

text \<open>
  Claim C9. When a stat with the name exists in a collection within its capacity,
  \<^verbatim>\<open>add_stat\<close> with \<^verbatim>\<open>replace_if_exists=True\<close> returns the new stat and
  raises nothing, also at full capacity: the first stat with the name leaves the sequence, the
  other stats keep their order, and the new stat stands last.
\<close>

theorem replace_moves_stat_to_end:
  assumes "has_stat sc n" "stats_count_ok sc"
  shows "\<exists>before old after new_stat.
           stats sc = before @ old # after \<and> name old = n \<and> n \<notin> set (map name before)
         \<and> new_stat = StatComponent_init \<lparr> kw_name = n, kw_base_value = Some b,
               kw_current_value = c, kw_min_value = lo, kw_max_value = hi,
               kw_description = Some d \<rparr>
         \<and> add_stat sc n b c lo hi d True = (Inr new_stat, sc\<lparr>stats := before @ after @ [new_stat]\<rparr>)"
proof -
  from assms(1) have g: "get_stat_list (stats sc) n \<noteq> None"
    by (simp add: has_stat_def get_stat_def)
  from remove_stat_list_present [OF g] obtain before old after where
    h: "stats sc = before @ old # after" "name old = n" "n \<notin> set (map name before)"
       "remove_stat_list (stats sc) n = (True, before @ after)" by blast
  from add_stat_replace_ok [OF assms, of b c lo hi d] h(4)
  have "add_stat sc n b c lo hi d True =
     (Inr (StatComponent_init \<lparr> kw_name = n, kw_base_value = Some b, kw_current_value = c,
              kw_min_value = lo, kw_max_value = hi, kw_description = Some d \<rparr>),
      sc\<lparr>stats := before @ after @
           [StatComponent_init \<lparr> kw_name = n, kw_base_value = Some b, kw_current_value = c,
              kw_min_value = lo, kw_max_value = hi, kw_description = Some d \<rparr>]\<rparr>)"
    by simp
  with h(1,2,3) show ?thesis by blast
qed

theorem replace_moves_stat_to_end_witness:
  "has_stat scenario3_stats ''str'' \<and> stats_count_ok scenario3_stats
   \<and> int (length (stats scenario3_stats)) = the (max_stats scenario3_stats)
   \<and> get_stat_names scenario3_stats = [''str'', ''dex'']
   \<and> fst (add_stat scenario3_stats ''str'' 20 None None None [] True)
       = Inr \<lparr> component_type = STAT, name = ''str'', base_value = 20, current_value = 20,
                min_value = None, max_value = None, description = [] \<rparr>
   \<and> get_stat_names (snd (add_stat scenario3_stats ''str'' 20 None None None [] True))
       = [''dex'', ''str'']"
proof -
  have h1: "has_stat scenario3_stats ''str''"
    by (simp add: has_stat_names get_stat_names_def scenario3_stats_fields)
  have h2: "stats_count_ok scenario3_stats"
    by (simp add: scenario3_stats_fields stats_count_ok_def)
  have h3: "int (length (stats scenario3_stats)) = the (max_stats scenario3_stats)"
     "get_stat_names scenario3_stats = [''str'', ''dex'']"
    by (simp_all add: scenario3_stats_fields get_stat_names_def)
  from replace_moves_stat_to_end [OF h1 h2, of 20 None None None "[]"]
  obtain before old after new_stat where
    k: "stats scenario3_stats = before @ old # after" "name old = ''str''"
       "''str'' \<notin> set (map name before)"
       "new_stat = StatComponent_init \<lparr> kw_name = ''str'', kw_base_value = Some 20,
               kw_current_value = None, kw_min_value = None, kw_max_value = None,
               kw_description = Some [] \<rparr>"
       "add_stat scenario3_stats ''str'' 20 None None None [] True
          = (Inr new_stat, scenario3_stats\<lparr>stats := before @ after @ [new_stat]\<rparr>)"
    by blast
  have ns: "new_stat = \<lparr> component_type = STAT, name = ''str'', base_value = 20, current_value = 20,
                min_value = None, max_value = None, description = [] \<rparr>"
    by (simp add: k(4) StatComponent_init_def validate_base_value_def validate_current_value_def
        data_get_def below_bound_def above_bound_def)
  have "before = []"
    using k(1,3) by (cases before) (auto simp: scenario3_stats_fields)
  with k(1) have "map name after = [''dex'']"
    by (auto simp: scenario3_stats_fields)
  with \<open>before = []\<close> k(5) ns
  have "get_stat_names (snd (add_stat scenario3_stats ''str'' 20 None None None [] True))
       = [''dex'', ''str'']"
    by (simp add: get_stat_names_def)
  with h1 h2 h3 k(5) ns show ?thesis by simp
qed


text \<open>
  The capacity invariant holds after construction and after every \<^verbatim>\<open>add_stat\<close>.
\<close>

lemma StatsComponent_init_count_ok:
  assumes "StatsComponent_init ss m = Inr sc"
  shows "stats_count_ok sc"
  using assms
  by (auto simp: StatsComponent_init_def validate_stats_count_def stats_count_ok_def
      split: option.splits if_splits)

lemma add_stat_count_ok:
  assumes "stats_count_ok sc"
  shows "stats_count_ok (snd (add_stat sc n b c lo hi d r))"
proof (cases "get_stat_list (stats sc) n = None")
  case True
  with assms show ?thesis
    by (auto simp: add_stat_def get_stat_def stats_count_ok_def Let_def split: option.splits)
next
  case False
  then have len: "Suc (length (snd (remove_stat_list (stats sc) n))) = length (stats sc)"
    by (rule remove_stat_list_length)
  with False assms show ?thesis
    by (auto simp: add_stat_def get_stat_def stats_count_ok_def remove_stat_snd Let_def
        split: option.splits)
qed

section \<open>Properties of InventoryComponent\<close>

lemma add_items_le: "fst (add_items c iid r) \<le> max r 0"
  by (simp add: add_items_def Let_def)

lemma spec_fill_matching_done: "r \<le> 0 \<Longrightarrow> spec_fill_matching cs iid r = (cs, r)"
  by (induction cs) simp_all

lemma spec_fill_empty_done: "r \<le> 0 \<Longrightarrow> spec_fill_empty cs iid r = (cs, r)"
  by (induction cs) simp_all

lemma spec_append_new_done: "r \<le> 0 \<Longrightarrow> spec_append_new n stack iid r = ([], r)"
  by (cases n) simp_all

lemma spec_fill_matching_length: "length (fst (spec_fill_matching cs iid r)) = length cs"
  by (induction cs arbitrary: r) simp_all

lemma spec_fill_empty_length: "length (fst (spec_fill_empty cs iid r)) = length cs"
  by (induction cs arbitrary: r) simp_all

lemma spec_fill_matching_nonneg: "0 \<le> r \<Longrightarrow> 0 \<le> snd (spec_fill_matching cs iid r)"
proof (induction cs arbitrary: r)
  case Nil
  then show ?case by simp
next
  case (Cons c cs)
  have "fst (add_items c iid r) \<le> r"
    using add_items_le [of c iid r] Cons.prems by simp
  then have "0 \<le> r - fst (add_items c iid r)" by simp
  with Cons show ?case by simp
qed

lemma add_to_existing_spec:
  "0 < r \<Longrightarrow> add_to_existing cs iid r =
     (fst (spec_fill_matching cs iid r), snd (spec_fill_matching cs iid r),
      snd (spec_fill_matching cs iid r) \<le> 0)"
proof (induction cs arbitrary: r)
  case Nil
  then show ?case by simp
next
  case (Cons c cs)
  show ?case
  proof (cases "r - fst (add_items c iid r) \<le> 0")
    case True
    with Cons.prems Cons.IH [OF Cons.prems] show ?thesis
      by (auto simp: Let_def spec_fill_matching_done)
  next
    case False
    then have "0 < r - fst (add_items c iid r)" by simp
    from Cons.IH [OF this] Cons.IH [OF Cons.prems] Cons.prems False show ?thesis
      by (auto simp: Let_def)
  qed
qed

lemma add_to_first_empty_none:
  "list_all (\<lambda>c. \<not> is_empty c) pre \<Longrightarrow> add_to_first_empty pre iid r = None"
  by (induction pre) simp_all

lemma add_to_first_empty_here:
  "list_all (\<lambda>c. \<not> is_empty c) pre \<Longrightarrow> is_empty c \<Longrightarrow>
   add_to_first_empty (pre @ c # cs) iid r
     = Some (fst (add_items c iid r), pre @ snd (add_items c iid r) # cs)"
  by (induction pre) simp_all

lemma new_cell_init:
  "1 \<le> stack \<Longrightarrow>
   InventoryCellComponent_init (no_kwargs\<lparr>kw_max_stack_size := Some stack\<rparr>)
     = Inr \<lparr> component_type = INVENTORY, item_id = None, quantity = 0,
             max_stack_size = stack, slot_type = None, is_equipped = False \<rparr>"
  by (simp add: InventoryCellComponent_init_def no_kwargs_def validate_item_id_and_quantity_def)

lemma add_items_new_cell:
  "0 < r \<Longrightarrow>
   add_items \<lparr> component_type = INVENTORY, item_id = None, quantity = 0,
             max_stack_size = stack, slot_type = None, is_equipped = False \<rparr> iid r
     = (min r stack, spec_new_cell stack iid r)"
  by (simp add: add_items_def is_empty_def spec_new_cell_def Let_def)

lemma spec_new_cell_not_empty: "0 < r \<Longrightarrow> 1 \<le> stack \<Longrightarrow> \<not> is_empty (spec_new_cell stack iid r)"
  by (simp add: is_empty_def spec_new_cell_def)

lemma add_items_empty_not_empty:
  "cell_inv c \<Longrightarrow> is_empty c \<Longrightarrow> 0 < r \<Longrightarrow> \<not> is_empty (snd (add_items c iid r))"
  by (auto simp: add_items_def is_empty_def cell_inv_def Let_def)

lemma loop_append_new:
  assumes "1 \<le> stack_size_for invt mss"
  shows "list_all (\<lambda>c. \<not> is_empty c) pre \<Longrightarrow> n = nat (max_cells invt - int (length pre)) \<Longrightarrow>
     add_to_empty_cells (invt\<lparr>cells := pre\<rparr>) iid mss r =
       Some (Inr (snd (spec_append_new n (stack_size_for invt mss) iid r)),
             invt\<lparr>cells := pre @ fst (spec_append_new n (stack_size_for invt mss) iid r)\<rparr>)"
proof (induction n arbitrary: pre r)
  case 0
  then have full: "\<not> int (length pre) < max_cells invt" by simp
  from 0 full show ?case
    by (subst add_to_empty_cells.simps) (simp add: add_to_first_empty_none)
next
  case (Suc n)
  then have room: "int (length pre) < max_cells invt" by simp
  show ?case
  proof (cases "0 < r")
    case False
    then show ?thesis
      by (subst add_to_empty_cells.simps) simp
  next
    case True
    have pre': "list_all (\<lambda>c. \<not> is_empty c) (pre @ [spec_new_cell (stack_size_for invt mss) iid r])"
      using Suc.prems(1) True assms by (simp add: spec_new_cell_not_empty)
    have n': "n = nat (max_cells invt - int (length (pre @ [spec_new_cell (stack_size_for invt mss) iid r])))"
      using Suc.prems(2) by simp
    note IH = Suc.IH [OF pre' n', of "r - min r (stack_size_for invt mss)"]
    have st: "(case mss of None \<Rightarrow> default_max_stack_size (invt\<lparr>cells := pre\<rparr>) | Some m \<Rightarrow> m)
                = stack_size_for invt mss"
      by (cases mss) (simp_all add: stack_size_for_def)
    show ?thesis
      using True room Suc.prems(1) IH
      by (subst add_to_empty_cells.simps)
         (simp add: add_to_first_empty_none st new_cell_init [OF assms] add_items_new_cell)
  qed
qed

lemma loop_fill_empty:
  assumes "1 \<le> stack_size_for invt mss"
  shows "list_all (\<lambda>c. \<not> is_empty c) pre \<Longrightarrow> list_all cell_inv cs \<Longrightarrow>
     add_to_empty_cells (invt\<lparr>cells := pre @ cs\<rparr>) iid mss r =
       Some (Inr (snd (spec_append_new (nat (max_cells invt - int (length (pre @ cs))))
                        (stack_size_for invt mss) iid (snd (spec_fill_empty cs iid r)))),
             invt\<lparr>cells := pre @ fst (spec_fill_empty cs iid r) @
                fst (spec_append_new (nat (max_cells invt - int (length (pre @ cs))))
                        (stack_size_for invt mss) iid (snd (spec_fill_empty cs iid r)))\<rparr>)"
proof (induction cs arbitrary: pre r)
  case Nil
  from loop_append_new [OF assms Nil(1) refl, of iid r] show ?case by simp
next
  case (Cons c cs)
  show ?case
  proof (cases "0 < r")
    case False
    then show ?thesis
      by (subst add_to_empty_cells.simps) (simp add: spec_fill_empty_done spec_append_new_done)
  next
    case True
    show ?thesis
    proof (cases "is_empty c")
      case False
      with Cons.prems have pre': "list_all (\<lambda>c. \<not> is_empty c) (pre @ [c])" by simp
      from Cons.prems have cs': "list_all cell_inv cs" by simp
      from Cons.IH [OF pre' cs', of r] False show ?thesis by simp
    next
      case empty: True
      have ne: "\<not> is_empty (snd (add_items c iid r))"
        using Cons.prems(2) empty True by (simp add: add_items_empty_not_empty)
      with Cons.prems have pre': "list_all (\<lambda>c. \<not> is_empty c) (pre @ [snd (add_items c iid r)])"
        by simp
      from Cons.prems have cs': "list_all cell_inv cs" by simp
      note IH = Cons.IH [OF pre' cs', of "r - fst (add_items c iid r)"]
      show ?thesis
        using True empty IH
        by (subst add_to_empty_cells.simps)
           (simp add: add_to_first_empty_here [OF Cons.prems(1) empty])
    qed
  qed
qed

lemma spec_fill_matching_inv:
  "list_all cell_inv cs \<Longrightarrow> list_all cell_inv (fst (spec_fill_matching cs iid r))"
  by (induction cs arbitrary: r) (simp_all add: add_items_cell_inv)

lemma spec_fill_empty_inv:
  "list_all cell_inv cs \<Longrightarrow> list_all cell_inv (fst (spec_fill_empty cs iid r))"
  by (induction cs arbitrary: r) (simp_all add: add_items_cell_inv)

lemma spec_new_cell_inv: "0 < r \<Longrightarrow> 1 \<le> stack \<Longrightarrow> cell_inv (spec_new_cell stack iid r)"
  by (auto simp: cell_inv_def spec_new_cell_def)

lemma spec_append_new_inv:
  "1 \<le> stack \<Longrightarrow> list_all cell_inv (fst (spec_append_new n stack iid r))"
  by (induction n arbitrary: r) (simp_all add: spec_new_cell_inv)

lemma stack_size_for_ok:
  "inventory_inv invt \<Longrightarrow> stack_size_ok mss \<Longrightarrow> 1 \<le> stack_size_for invt mss"
  by (cases mss) (simp_all add: inventory_inv_def stack_size_ok_def stack_size_for_def)

lemma add_item_refines:
  assumes "inventory_inv invt" "stack_size_ok mss"
  shows "add_item invt iid qty mss
           = Some (Inr (fst (spec_add_item invt iid qty mss)), snd (spec_add_item invt iid qty mss))"
proof (cases "qty \<le> 0")
  case True
  then show ?thesis by (simp add: add_item_def spec_add_item_def)
next
  case False
  then have pos: "0 < qty" by simp
  define p1 where "p1 = spec_fill_matching (cells invt) iid qty"
  have ex: "add_to_existing (cells invt) iid qty = (fst p1, snd p1, snd p1 \<le> 0)"
    unfolding p1_def using pos by (rule add_to_existing_spec)
  have nonneg: "0 \<le> snd p1"
    unfolding p1_def using pos by (simp add: spec_fill_matching_nonneg)
  have len: "length (fst p1) = length (cells invt)"
    unfolding p1_def by (rule spec_fill_matching_length)
  have st: "(case mss of None \<Rightarrow> default_max_stack_size invt | Some m \<Rightarrow> m) = stack_size_for invt mss"
    by (simp add: stack_size_for_def)
  show ?thesis
  proof (cases "snd p1 \<le> 0")
    case True
    with nonneg have z: "snd p1 = 0" by simp
    from pos ex z show ?thesis
      by (simp add: add_item_def spec_add_item_def Let_def p1_def [symmetric]
          spec_fill_empty_done spec_append_new_done)
  next
    case False
    have inv1: "list_all cell_inv (fst p1)"
      unfolding p1_def using assms(1) by (simp add: inventory_inv_def spec_fill_matching_inv)
    have stack: "1 \<le> stack_size_for invt mss"
      using assms by (rule stack_size_for_ok)
    from loop_fill_empty [OF stack, of "[]" "fst p1" iid "snd p1"] inv1
    have loop: "add_to_empty_cells (invt\<lparr>cells := fst p1\<rparr>) iid mss (snd p1) =
       Some (Inr (snd (spec_append_new (nat (max_cells invt - int (length (cells invt))))
                        (stack_size_for invt mss) iid (snd (spec_fill_empty (fst p1) iid (snd p1))))),
             invt\<lparr>cells := fst (spec_fill_empty (fst p1) iid (snd p1)) @
                fst (spec_append_new (nat (max_cells invt - int (length (cells invt))))
                        (stack_size_for invt mss) iid (snd (spec_fill_empty (fst p1) iid (snd p1))))\<rparr>)"
      by (simp add: len)
    from pos ex False loop show ?thesis
      by (simp add: add_item_def spec_add_item_def Let_def p1_def [symmetric] st)
  qed
qed

lemma spec_add_item_inv:
  assumes "inventory_inv invt" "stack_size_ok mss"
  shows "inventory_inv (snd (spec_add_item invt iid qty mss))"
proof -
  have stack: "1 \<le> stack_size_for invt mss"
    using assms by (rule stack_size_for_ok)
  have st: "(case mss of None \<Rightarrow> default_max_stack_size invt | Some m \<Rightarrow> m) = stack_size_for invt mss"
    by (simp add: stack_size_for_def)
  from assms(1) stack show ?thesis
    by (simp add: spec_add_item_def Let_def st inventory_inv_def spec_fill_matching_inv
        spec_fill_empty_inv spec_append_new_inv)
qed

lemma get_item_count_list_append:
  "get_item_count_list (xs @ ys) iid = get_item_count_list xs iid + get_item_count_list ys iid"
  by (induction xs) simp_all

lemma count_fill_matching:
  "get_item_count_list (fst (spec_fill_matching cs iid r)) iid
     = get_item_count_list cs iid + (r - snd (spec_fill_matching cs iid r))"
proof (induction cs arbitrary: r)
  case Nil
  then show ?case by simp
next
  case (Cons c cs)
  show ?case
  proof (cases "r > 0 \<and> \<not> is_empty c \<and> item_id c = Some iid")
    case False
    then show ?thesis using Cons.IH [of r] by auto
  next
    case True
    then show ?thesis
      using Cons.IH [of "r - fst (add_items c iid r)"]
      by (auto simp: add_items_def is_empty_def Let_def)
  qed
qed

lemma count_fill_empty:
  "list_all cell_inv cs \<Longrightarrow>
   get_item_count_list (fst (spec_fill_empty cs iid r)) iid
     = get_item_count_list cs iid + (r - snd (spec_fill_empty cs iid r))"
proof (induction cs arbitrary: r)
  case Nil
  then show ?case by simp
next
  case (Cons c cs)
  then have cs: "list_all cell_inv cs" and c: "cell_inv c" by simp_all
  show ?case
  proof (cases "r > 0 \<and> is_empty c")
    case False
    then show ?thesis using Cons.IH [OF cs, of r] by auto
  next
    case True
    then show ?thesis
      using Cons.IH [OF cs, of "r - fst (add_items c iid r)"] c
      by (auto simp: add_items_def is_empty_def cell_inv_def Let_def)
  qed
qed

lemma count_append_new:
  "get_item_count_list (fst (spec_append_new n stack iid r)) iid
     = r - snd (spec_append_new n stack iid r)"
proof (induction n arbitrary: r)
  case 0
  then show ?case by simp
next
  case (Suc n)
  show ?case
    using Suc.IH [of "r - min r stack"]
    by (auto simp: spec_new_cell_def is_empty_def)
qed

lemma spec_add_item_count:
  assumes "inventory_inv invt"
  shows "get_item_count (snd (spec_add_item invt iid qty mss)) iid
           = get_item_count invt iid + fst (spec_add_item invt iid qty mss)"
proof (cases "qty \<le> 0")
  case True
  then show ?thesis by (simp add: spec_add_item_def)
next
  case False
  have inv1: "list_all cell_inv (fst (spec_fill_matching (cells invt) iid qty))"
    using assms by (simp add: inventory_inv_def spec_fill_matching_inv)
  from False show ?thesis
    by (simp add: spec_add_item_def Let_def get_item_count_def get_item_count_list_append
        count_fill_matching count_fill_empty [OF inv1] count_append_new)
qed

text \<open>
  Claim C2. \<^verbatim>\<open>add_item\<close> returns 0 and changes nothing for a quantity that is not
  positive. For a positive quantity, on an inventory of valid cells and with a stack size for
  new cells of at least 1, it returns and raises nothing, and does what the specification
  says: it fills the cells that hold the item in their order, then the empty cells in their
  order, then appends new cells of the given (or the default) stack size while the
  inventory has fewer than \<^verbatim>\<open>max_cells\<close> cells, each only while a quantity remains,
  and returns the quantity minus what remains.
\<close>

theorem add_item_first_fit:
  "(qty \<le> 0 \<longrightarrow> add_item invt iid qty mss = Some (Inr 0, invt))
   \<and> (inventory_inv invt \<and> stack_size_ok mss \<longrightarrow>
        add_item invt iid qty mss
          = Some (Inr (fst (spec_add_item invt iid qty mss)), snd (spec_add_item invt iid qty mss)))"
  by (simp add: add_item_refines) (simp add: add_item_def)

theorem add_item_first_fit_witness:
  "inventory_inv mixed_inventory \<and> stack_size_ok None
   \<and> add_item mixed_inventory ''potion'' 20 None
       = Some (Inr 12, mixed_inventory\<lparr>cells :=
           [\<lparr> component_type = INVENTORY, item_id = Some ''potion'', quantity = 5,
              max_stack_size = 5, slot_type = None, is_equipped = False \<rparr>,
            \<lparr> component_type = INVENTORY, item_id = Some ''potion'', quantity = 5,
              max_stack_size = 5, slot_type = None, is_equipped = False \<rparr>,
            \<lparr> component_type = INVENTORY, item_id = Some ''sword'', quantity = 1,
              max_stack_size = 1, slot_type = None, is_equipped = True \<rparr>,
            \<lparr> component_type = INVENTORY, item_id = Some ''potion'', quantity = 5,
              max_stack_size = 5, slot_type = None, is_equipped = False \<rparr>]\<rparr>)
   \<and> add_item mixed_inventory ''potion'' 0 None = Some (Inr 0, mixed_inventory)"
proof -
  have h1: "inventory_inv mixed_inventory"
    by (simp add: inventory_inv_def mixed_inventory_def cell_inv_def)
  have h2: "stack_size_ok None"
    by (simp add: stack_size_ok_def)
  have sp: "spec_add_item mixed_inventory ''potion'' 20 None
      = (12, mixed_inventory\<lparr>cells :=
           [\<lparr> component_type = INVENTORY, item_id = Some ''potion'', quantity = 5,
              max_stack_size = 5, slot_type = None, is_equipped = False \<rparr>,
            \<lparr> component_type = INVENTORY, item_id = Some ''potion'', quantity = 5,
              max_stack_size = 5, slot_type = None, is_equipped = False \<rparr>,
            \<lparr> component_type = INVENTORY, item_id = Some ''sword'', quantity = 1,
              max_stack_size = 1, slot_type = None, is_equipped = True \<rparr>,
            \<lparr> component_type = INVENTORY, item_id = Some ''potion'', quantity = 5,
              max_stack_size = 5, slot_type = None, is_equipped = False \<rparr>]\<rparr>)"
    by (simp add: spec_add_item_def mixed_inventory_def add_items_def is_empty_def
        spec_new_cell_def Let_def)
  from add_item_first_fit [of 20 mixed_inventory "''potion''" None] h1 h2 sp
  have a: "add_item mixed_inventory ''potion'' 20 None
       = Some (Inr 12, mixed_inventory\<lparr>cells :=
           [\<lparr> component_type = INVENTORY, item_id = Some ''potion'', quantity = 5,
              max_stack_size = 5, slot_type = None, is_equipped = False \<rparr>,
            \<lparr> component_type = INVENTORY, item_id = Some ''potion'', quantity = 5,
              max_stack_size = 5, slot_type = None, is_equipped = False \<rparr>,
            \<lparr> component_type = INVENTORY, item_id = Some ''sword'', quantity = 1,
              max_stack_size = 1, slot_type = None, is_equipped = True \<rparr>,
            \<lparr> component_type = INVENTORY, item_id = Some ''potion'', quantity = 5,
              max_stack_size = 5, slot_type = None, is_equipped = False \<rparr>]\<rparr>)"
    by simp
  from add_item_first_fit [of 0 mixed_inventory "''potion''" None]
  have b: "add_item mixed_inventory ''potion'' 0 None = Some (Inr 0, mixed_inventory)"
    by simp
  from h1 h2 a b show ?thesis by blast
qed

text \<open>
  Claim C7. On an inventory of valid cells, when \<^verbatim>\<open>add_item\<close> with quantity
  \<open>a\<close>, then with quantity \<open>b\<close>, and the single call with quantity \<open>a + b\<close>
  each add all they are asked to add (capacity is not exceeded in either order), the two
  final inventories hold the same total count of the item.
\<close>

theorem add_item_split_same_count:
  assumes "inventory_inv invt" "stack_size_ok mss"
    and "add_item invt iid a mss = Some (Inr a, inv1)"
    and "add_item inv1 iid b mss = Some (Inr b, inv2)"
    and "add_item invt iid (a + b) mss = Some (Inr (a + b), inv3)"
  shows "get_item_count inv2 iid = get_item_count inv3 iid
       \<and> get_item_count inv3 iid = get_item_count invt iid + (a + b)"
proof -
  from assms(3) add_item_refines [OF assms(1,2), of iid a]
  have r1: "fst (spec_add_item invt iid a mss) = a" "snd (spec_add_item invt iid a mss) = inv1"
    by simp_all
  have inv1: "inventory_inv inv1"
    using spec_add_item_inv [OF assms(1,2), of iid a] r1 by simp
  from assms(4) add_item_refines [OF inv1 assms(2), of iid b]
  have r2: "fst (spec_add_item inv1 iid b mss) = b" "snd (spec_add_item inv1 iid b mss) = inv2"
    by simp_all
  from assms(5) add_item_refines [OF assms(1,2), of iid "a + b"]
  have r3: "fst (spec_add_item invt iid (a + b) mss) = a + b"
           "snd (spec_add_item invt iid (a + b) mss) = inv3"
    by simp_all
  have c1: "get_item_count inv1 iid = get_item_count invt iid + a"
    using spec_add_item_count [OF assms(1), of iid a mss] r1 by simp
  have c2: "get_item_count inv2 iid = get_item_count inv1 iid + b"
    using spec_add_item_count [OF inv1, of iid b mss] r2 by simp
  have c3: "get_item_count inv3 iid = get_item_count invt iid + (a + b)"
    using spec_add_item_count [OF assms(1), of iid "a + b" mss] r3 by simp
  from c1 c2 c3 show ?thesis by simp
qed

lemma empty_inventory_inv: "inventory_inv empty_inventory"
  by (simp add: inventory_inv_def empty_inventory_def)

lemma potions3_inv: "inventory_inv (potions [3])"
  by (simp add: inventory_inv_def empty_inventory_def potions_def cell_inv_def)

lemma stack_size_ok_None: "stack_size_ok None"
  by (simp add: stack_size_ok_def)

lemma empty_inventory_add3:
  "add_item empty_inventory ''potion'' 3 None = Some (Inr 3, potions [3])"
  by (simp add: add_item_refines [OF empty_inventory_inv stack_size_ok_None])
     (simp add: spec_add_item_def empty_inventory_def potions_def spec_new_cell_def Let_def
        eval_nat_numeral)

lemma potions3_add4:
  "add_item (potions [3]) ''potion'' 4 None = Some (Inr 4, potions [5, 2])"
  by (simp add: add_item_refines [OF potions3_inv stack_size_ok_None])
     (simp add: spec_add_item_def empty_inventory_def potions_def spec_new_cell_def
        add_items_def is_empty_def Let_def)

lemma empty_inventory_add7:
  "add_item empty_inventory ''potion'' 7 None = Some (Inr 7, potions [5, 2])"
  by (simp add: add_item_refines [OF empty_inventory_inv stack_size_ok_None])
     (simp add: spec_add_item_def empty_inventory_def potions_def spec_new_cell_def Let_def
        eval_nat_numeral)

theorem add_item_split_same_count_witness:
  "inventory_inv empty_inventory \<and> stack_size_ok None
   \<and> add_item empty_inventory ''potion'' 3 None = Some (Inr 3, potions [3])
   \<and> add_item (potions [3]) ''potion'' 4 None = Some (Inr 4, potions [5, 2])
   \<and> add_item empty_inventory ''potion'' (3 + 4) None = Some (Inr (3 + 4), potions [5, 2])
   \<and> get_item_count (potions [5, 2]) ''potion'' = get_item_count empty_inventory ''potion'' + (3 + 4)
   \<and> get_item_count (potions [5, 2]) ''potion'' = 7"
proof -
  have h5: "add_item empty_inventory ''potion'' (3 + 4) None = Some (Inr (3 + 4), potions [5, 2])"
    using empty_inventory_add7 by simp
  have c: "get_item_count (potions [5, 2]) ''potion'' = 7"
    by (simp add: get_item_count_def potions_def is_empty_def)
  from add_item_split_same_count [OF empty_inventory_inv stack_size_ok_None
      empty_inventory_add3 potions3_add4 h5]
    empty_inventory_inv stack_size_ok_None empty_inventory_add3 potions3_add4 h5 c
  show ?thesis by simp
qed

lemma remove_items_frame: "unchanged_but_removed c (snd (remove_items c n))"
  by (simp add: unchanged_but_removed_def remove_items_def Let_def)

lemma list_all2_unchanged_refl: "list_all2 unchanged_but_removed cs cs"
  by (simp add: list_all2_refl unchanged_but_removed_def)

lemma remove_from_cells_frame:
  "list_all2 unchanged_but_removed cs (fst (remove_from_cells cs iid r))"
proof (induction cs arbitrary: r)
  case Nil
  then show ?case by simp
next
  case (Cons c cs)
  show ?case
    using Cons.IH [of r] Cons.IH [of "r - fst (remove_items c r)"]
    by (auto simp: Let_def split_beta remove_items_frame list_all2_unchanged_refl
        unchanged_but_removed_def [of c c])
qed

text \<open>
  Claim C10. For every inventory, item and quantity, \<^verbatim>\<open>remove_item\<close> changes
  only the list of cells, and keeps its length; the cell at each position is the cell that
  was there, changed at most in its quantity, and with \<^verbatim>\<open>item_id\<close> cleared when
  its quantity has become 0. Removing the one sword of the first cell leaves an empty cell
  in the first position and the second cell as it was.
\<close>

theorem remove_item_keeps_cells_in_place:
  "snd (remove_item invt iid qty) = invt\<lparr>cells := cells (snd (remove_item invt iid qty))\<rparr>
   \<and> length (cells (snd (remove_item invt iid qty))) = length (cells invt)
   \<and> list_all2 unchanged_but_removed (cells invt) (cells (snd (remove_item invt iid qty)))
   \<and> remove_item sword_inventory ''sword'' 1
       = (1, sword_inventory\<lparr>cells :=
            [\<lparr> component_type = INVENTORY, item_id = None, quantity = 0,
               max_stack_size = 1, slot_type = None, is_equipped = False \<rparr>,
             \<lparr> component_type = INVENTORY, item_id = Some ''potion'', quantity = 3,
               max_stack_size = 5, slot_type = None, is_equipped = False \<rparr>]\<rparr>)"
proof -
  have fr: "list_all2 unchanged_but_removed (cells invt) (cells (snd (remove_item invt iid qty)))"
    using remove_from_cells_frame [of "cells invt" iid qty]
    by (simp add: remove_item_def split_beta list_all2_unchanged_refl)
  then have len: "length (cells (snd (remove_item invt iid qty))) = length (cells invt)"
    by (simp add: list_all2_lengthD)
  have rec: "snd (remove_item invt iid qty) = invt\<lparr>cells := cells (snd (remove_item invt iid qty))\<rparr>"
    by (simp add: remove_item_def split_beta)
  have ex: "remove_item sword_inventory ''sword'' 1
       = (1, sword_inventory\<lparr>cells :=
            [\<lparr> component_type = INVENTORY, item_id = None, quantity = 0,
               max_stack_size = 1, slot_type = None, is_equipped = False \<rparr>,
             \<lparr> component_type = INVENTORY, item_id = Some ''potion'', quantity = 3,
               max_stack_size = 5, slot_type = None, is_equipped = False \<rparr>]\<rparr>)"
    by (simp add: remove_item_def sword_inventory_def remove_items_def is_empty_def Let_def)
  from rec len fr ex show ?thesis by blast
qed

text \<open>\<^verbatim>\<open>remove_item\<close> keeps the cells of an inventory valid.\<close>

lemma remove_from_cells_inv:
  "list_all cell_inv cs \<Longrightarrow> list_all cell_inv (fst (remove_from_cells cs iid r))"
proof (induction cs arbitrary: r)
  case Nil
  then show ?case by simp
next
  case (Cons c cs)
  then have c: "cell_inv c" and cs: "list_all cell_inv cs" by simp_all
  show ?case
    using Cons.IH [OF cs, of r] Cons.IH [OF cs, of "r - fst (remove_items c r)"] c cs
    by (auto simp: Let_def split_beta remove_items_cell_inv)
qed

lemma remove_item_inv:
  assumes "inventory_inv invt"
  shows "inventory_inv (snd (remove_item invt iid qty))"
  using assms
  by (simp add: remove_item_def inventory_inv_def split_beta remove_from_cells_inv)

end
